theory Spec2Isabelle
  imports Main "HOL-Library.AList"
begin

text \<open>
  A model of the CSV field mapper: the value extractors, the mapping table, loading a
  file, the calculation and the export guard, as functions on an explicit application
  state, with the properties of the specification proved about them.
\<close>

section \<open>Python values\<close>

text \<open>
  A Python \<open>str\<close> is modelled as a HOL \<open>string\<close>, one \<open>char\<close> per character of the
  text: the characters are the code points 0 to 255. Lower-casing and the integer parser
  are written out for these characters. Upper-casing is taken from the interpreter,
  because the capital of a character need not be a single character, nor one of these.
\<close>

text \<open>A float is kept as the three fields of its 64-bit encoding.\<close>

datatype pyfloat = Float64 (sign_bit: bool) (exponent_field: nat) (fraction_field: nat)

datatype pyval =
    PNone
  | PBool bool
  | PInt int
  | PFloat pyfloat
  | PStr string
  | PList "pyval list"
  | PDict "(string \<times> pyval) list"

datatype py_exception =
    JSONDecodeError
  | AttributeError
  | TypeError
  | ValueError
  | KeyError
  | IndexError
  | RecursionError
  | MemoryError

text \<open>
  What the program takes from the interpreter and its library: \<open>json.loads\<close>, which
  either returns the decoded value or raises; the limit on the number of digits of
  an integer conversion (\<open>0\<close> switches the limit off); the text \<open>str\<close> gives for
  a float, a list or a dictionary; and \<open>str.upper\<close>.
\<close>

record py_runtime =
  json_loads :: "string \<Rightarrow> py_exception + pyval"
  int_max_str_digits :: nat
  repr_of :: "pyval \<Rightarrow> string"
  str_upper :: "string \<Rightarrow> string"

subsection \<open>String operations\<close>

text \<open>
  \<open>str.lower\<close>: the letters \<open>A\<close> to \<open>Z\<close> and the capital letters from 192 to 222 (215
  is the multiplication sign) have their small letter 32 places further on.
\<close>

definition char_lower :: "char \<Rightarrow> char" where
  "char_lower c =
     (let n = (of_char c :: nat)
      in if (65 \<le> n \<and> n \<le> 90) \<or> (192 \<le> n \<and> n \<le> 222 \<and> n \<noteq> 215)
         then char_of (n + 32) else c)"

definition py_lower :: "string \<Rightarrow> string" where
  "py_lower s = map char_lower s"

text \<open>
  The white space \<open>int\<close> drops around a number: tab to carriage return, the space, the
  next-line control (133) and the no-break space (160).
\<close>

definition is_space :: "char \<Rightarrow> bool" where
  "is_space c =
     (let n = (of_char c :: nat) in (9 \<le> n \<and> n \<le> 13) \<or> n = 32 \<or> n = 133 \<or> n = 160)"

definition is_digit :: "char \<Rightarrow> bool" where
  "is_digit c = (let n = (of_char c :: nat) in 48 \<le> n \<and> n \<le> 57)"

definition digit_val :: "char \<Rightarrow> nat" where
  "digit_val c = of_char c - 48"

definition digit_char :: "nat \<Rightarrow> char" where
  "digit_char d = char_of (48 + d)"

definition py_strip :: "string \<Rightarrow> string" where
  "py_strip s = rev (dropWhile is_space (rev (dropWhile is_space s)))"

text \<open>
  The digits of an integer literal: at least one digit, single underscores allowed
  between digits only. The flag says whether the previous character was a digit.
\<close>

fun digits_ok :: "bool \<Rightarrow> string \<Rightarrow> bool" where
  "digits_ok prev [] = prev"
| "digits_ok prev (c # cs) =
     (if is_digit c then digits_ok True cs
      else if c = CHR ''_'' \<and> prev then digits_ok False cs
      else False)"

definition digits_value :: "string \<Rightarrow> nat" where
  "digits_value ds = foldl (\<lambda>acc c. 10 * acc + digit_val c) 0 (filter is_digit ds)"

text \<open>
  \<open>int(s)\<close> for a string, base 10: surrounding white space is dropped, one sign may
  precede the digits, and \<open>None\<close> stands for \<open>ValueError\<close>. More than 640 digits and more
  than a non-zero limit is a \<open>ValueError\<close> as well.
\<close>

definition py_int :: "nat \<Rightarrow> string \<Rightarrow> int option" where
  "py_int lim s =
     (let t = py_strip s;
          neg = (t \<noteq> [] \<and> hd t = CHR ''-'');
          ds = (if t \<noteq> [] \<and> (hd t = CHR ''-'' \<or> hd t = CHR ''+'') then tl t else t);
          n = length (filter is_digit ds)
      in if \<not> digits_ok False ds then None
         else if 0 < lim \<and> 640 < n \<and> lim < n then None
         else Some (if neg then - int (digits_value ds) else int (digits_value ds)))"

text \<open>\<open>str(n)\<close> for an integer.\<close>

fun str_nat :: "nat \<Rightarrow> string" where
  "str_nat n = (if n < 10 then [digit_char n] else str_nat (n div 10) @ [digit_char (n mod 10)])"

declare str_nat.simps [simp del]

definition py_str_int :: "int \<Rightarrow> string" where
  "py_str_int i = (if i < 0 then CHR ''-'' # str_nat (nat (- i)) else str_nat (nat i))"

section \<open>Value extraction\<close>

definition extract_vnk :: "string \<Rightarrow> string" where
  "extract_vnk hiline_section =
     (if hiline_section \<noteq> [] \<and> 2 \<le> length hiline_section
      then take (length hiline_section div 2) hiline_section
      else hiline_section)"

definition extract_nnk :: "string \<Rightarrow> string" where
  "extract_nnk hiline_section =
     (if hiline_section \<noteq> [] \<and> 2 \<le> length hiline_section
      then drop (length hiline_section div 2) hiline_section
      else hiline_section)"

definition extract_klasse :: "py_runtime \<Rightarrow> string \<Rightarrow> string" where
  "extract_klasse rt hiline_road =
     (if hiline_road = [] then []
      else
        let letter = str_upper rt [hd hiline_road];
            numeric_part = (if 1 < length hiline_road then tl hiline_road else [])
        in case py_int (int_max_str_digits rt) numeric_part of
             Some numeric_value \<Rightarrow> letter @ py_str_int numeric_value
           | None \<Rightarrow> letter @ numeric_part)"

definition extract_nummer :: "string \<Rightarrow> string" where
  "extract_nummer hiline_road =
     (if hiline_road = [] then []
      else if 1 < length hiline_road then tl hiline_road else [])"

subsection \<open>The business data document\<close>

text \<open>\<open>d.get(key, default)\<close>: on anything but a dictionary the attribute is missing.\<close>

definition dict_get :: "pyval \<Rightarrow> string \<Rightarrow> pyval \<Rightarrow> py_exception + pyval" where
  "dict_get d key dflt =
     (case d of
        PDict kvs \<Rightarrow> (case map_of kvs key of Some v \<Rightarrow> Inr v | None \<Rightarrow> Inr dflt)
      | _ \<Rightarrow> Inl AttributeError)"

definition get3 :: "pyval \<Rightarrow> string \<Rightarrow> string \<Rightarrow> string \<Rightarrow> py_exception + pyval" where
  "get3 data k1 k2 key =
     (case dict_get data k1 (PDict []) of
        Inl e \<Rightarrow> Inl e
      | Inr a \<Rightarrow>
          (case dict_get a k2 (PDict []) of
             Inl e \<Rightarrow> Inl e
           | Inr b \<Rightarrow> dict_get b key (PStr [])))"

definition survey_tp3_fields :: "(string \<times> string) list" where
  "survey_tp3_fields =
     [(''EFLI'', ''efli''), (''AFLI'', ''afli''), (''RISS'', ''riss''), (''ONA'', ''ona'')]"

definition eval_tp3_fields :: "(string \<times> string) list" where
  "eval_tp3_fields =
     [(''ZWAUS'', ''zwaus''), (''ZWBIN'', ''zwbin''), (''ZWONA'', ''zwona''),
      (''ZWRSF'', ''zwrsf''), (''ZWSCH'', ''zwsch''), (''ZWAFLI'', ''zwafli''),
      (''ZWBORD'', ''zwbord''), (''ZWEFLI'', ''zwefli''), (''ZWRISS'', ''zwriss''),
      (''ZWWURZ'', ''zwwurz'')]"

definition overall_fields :: "(string \<times> string) list" where
  "overall_fields = [(''GW'', ''gw''), (''GEB'', ''geb''), (''SUB'', ''sub'')]"

text \<open>The handler \<open>except (json.JSONDecodeError, AttributeError, TypeError)\<close>.\<close>

definition caught :: "py_exception \<Rightarrow> bool" where
  "caught e = (e = JSONDecodeError \<or> e = AttributeError \<or> e = TypeError)"

definition extract_from_business_data ::
    "py_runtime \<Rightarrow> string \<Rightarrow> string \<Rightarrow> py_exception + pyval" where
  "extract_from_business_data rt json_str target_field =
     (let body =
        (case json_loads rt json_str of
           Inl e \<Rightarrow> Inl e
         | Inr data \<Rightarrow>
             (case map_of survey_tp3_fields target_field of
                Some key \<Rightarrow> get3 data ''survey_result'' ''tp3'' key
              | None \<Rightarrow>
                  (case map_of eval_tp3_fields target_field of
                     Some key \<Rightarrow> get3 data ''evaluation_result'' ''tp3'' key
                   | None \<Rightarrow>
                       (case map_of overall_fields target_field of
                          Some key \<Rightarrow> get3 data ''evaluation_result'' ''overall'' key
                        | None \<Rightarrow> Inr (PStr [])))))
      in case body of
           Inl e \<Rightarrow> (if caught e then Inr (PStr []) else Inl e)
         | Inr v \<Rightarrow> Inr v)"

subsection \<open>Dispatch on target field and source column\<close>

definition business_data_targets :: "string list" where
  "business_data_targets =
     [''EFLI'', ''AFLI'', ''RISS'', ''ZWAUS'', ''ZWBIN'', ''ZWONA'',
      ''ZWRSF'', ''ZWSCH'', ''ZWAFLI'', ''ZWBORD'', ''ZWEFLI'',
      ''ZWRISS'', ''ZWWURZ'', ''GW'', ''GEB'', ''SUB'']"

text \<open>The chain of tests in the row loop of \<open>calculate_data\<close>, for one cell.\<close>

definition transform :: "py_runtime \<Rightarrow> string \<Rightarrow> string \<Rightarrow> string \<Rightarrow> py_exception + pyval" where
  "transform rt target_field csv_column raw_value =
     (if target_field = ''VNK'' \<and> py_lower csv_column = ''hiline_section''
        then Inr (PStr (extract_vnk raw_value))
      else if target_field = ''NNK'' \<and> py_lower csv_column = ''hiline_section''
        then Inr (PStr (extract_nnk raw_value))
      else if target_field = ''KLASSE'' \<and> py_lower csv_column = ''hiline_road''
        then Inr (PStr (extract_klasse rt raw_value))
      else if target_field = ''NUMMER'' \<and> py_lower csv_column = ''hiline_road''
        then Inr (PStr (extract_nummer raw_value))
      else if py_lower csv_column = ''business_data'' \<and> List.member business_data_targets target_field
        then extract_from_business_data rt raw_value target_field
      else Inr (PStr raw_value))"

subsection \<open>The path table as the specification words it\<close>

text \<open>
  \<open>EFLI\<close>, \<open>AFLI\<close>, \<open>RISS\<close>, \<open>ONA\<close> under \<open>survey_result.tp3\<close>; the ten \<open>ZW\<close> keys under
  \<open>evaluation_result.tp3\<close>; \<open>GW\<close>, \<open>GEB\<close>, \<open>SUB\<close> under \<open>evaluation_result.overall\<close>;
  the last key is the field name in lower case.
\<close>

definition spec_path :: "string \<Rightarrow> (string \<times> string \<times> string) option" where
  "spec_path t =
     (if List.member [''EFLI'', ''AFLI'', ''RISS'', ''ONA''] t
        then Some (''survey_result'', ''tp3'', py_lower t)
      else if List.member [''ZWAUS'', ''ZWBIN'', ''ZWONA'', ''ZWRSF'', ''ZWSCH'', ''ZWAFLI'',
                           ''ZWBORD'', ''ZWEFLI'', ''ZWRISS'', ''ZWWURZ''] t
        then Some (''evaluation_result'', ''tp3'', py_lower t)
      else if List.member [''GW'', ''GEB'', ''SUB''] t
        then Some (''evaluation_result'', ''overall'', py_lower t)
      else None)"

text \<open>The value found by walking a path through nested objects, when every step exists.\<close>

definition member_of :: "pyval \<Rightarrow> string \<Rightarrow> pyval option" where
  "member_of d key = (case d of PDict kvs \<Rightarrow> map_of kvs key | _ \<Rightarrow> None)"

definition value_at :: "pyval \<Rightarrow> string \<times> string \<times> string \<Rightarrow> pyval option" where
  "value_at d p =
     (case p of (k1, k2, k3) \<Rightarrow>
        (case member_of d k1 of
           None \<Rightarrow> None
         | Some a \<Rightarrow> (case member_of a k2 of None \<Rightarrow> None | Some b \<Rightarrow> member_of b k3)))"

subsection \<open>An integer written without leading zeros\<close>



section \<open>The application state\<close>

text \<open>
  The fields of \<open>CSVFieldMapper\<close> that hold data. Dictionaries are association lists in
  insertion order. The widgets are left out; \<open>target_widgets\<close> is rebuilt from
  \<open>TARGET_FIELDS\<close> whenever that list changes, so its keys are the names in the list.
\<close>

type_synonym table = "(string \<times> pyval list) list"

record app =
  TARGET_FIELDS :: "string list"
  csv_headers :: "string list"
  csv_data :: "string list list"
  mappings :: "(string \<times> string) list"
  csv_file_path :: "string option"
  calculated_data :: "table option"
  csv_delimiter :: char

record progress_dialog =
  cancelled :: bool
  current :: nat
  total :: nat

definition progress_update :: "nat \<Rightarrow> nat \<Rightarrow> progress_dialog \<Rightarrow> progress_dialog" where
  "progress_update cur tot p = p\<lparr>current := cur, total := tot\<rparr>"

definition progress_close :: "progress_dialog \<Rightarrow> progress_dialog" where
  "progress_close p = p\<lparr>cancelled := True\<rparr>"

section \<open>The mapping table\<close>

definition on_mapping_selected :: "string \<Rightarrow> string \<Rightarrow> app \<Rightarrow> app" where
  "on_mapping_selected target_field csv_column s =
     (let m = (if csv_column \<noteq> [] then AList.update target_field csv_column (mappings s)
               else if map_of (mappings s) target_field \<noteq> None
                 then AList.delete target_field (mappings s)
               else mappings s)
      in s\<lparr>mappings := m, calculated_data := None\<rparr>)"

definition clear_mappings :: "app \<Rightarrow> app" where
  "clear_mappings s = s\<lparr>mappings := [], calculated_data := None\<rparr>"

definition clear_single_mapping :: "string \<Rightarrow> app \<Rightarrow> app" where
  "clear_single_mapping target_field s =
     (let m = (if map_of (mappings s) target_field \<noteq> None
               then AList.delete target_field (mappings s) else mappings s)
      in s\<lparr>mappings := m, calculated_data := None\<rparr>)"

text \<open>The loop of \<open>auto_map\<close> over \<open>enumerate(self.TARGET_FIELDS)\<close>.\<close>

fun auto_map_loop :: "string list \<Rightarrow> (nat \<times> string) list \<Rightarrow> (string \<times> string) list
    \<Rightarrow> (string \<times> string) list" where
  "auto_map_loop hs [] m = m"
| "auto_map_loop hs ((i, target_field) # rest) m =
     (if i < length hs then auto_map_loop hs rest (AList.update target_field (hs ! i) m)
      else auto_map_loop hs rest m)"

definition auto_map :: "app \<Rightarrow> app" where
  "auto_map s =
     (if csv_headers s = [] then s
      else
        let s1 = clear_mappings s
        in s1\<lparr>mappings :=
               auto_map_loop (csv_headers s1) (enumerate 0 (TARGET_FIELDS s1)) (mappings s1)\<rparr>)"

definition mapping_rules :: "(string \<times> string list) list" where
  "mapping_rules =
     [(''ID'', [''ID'']),
      (''hiline_carriageway'', [''LAGE'']),
      (''hiline_road'', [''KLASSE'', ''NUMMER'']),
      (''business_data'',
         [''EFLI'', ''AFLI'', ''RISS'', ''ZWAUS'', ''ZWBIN'', ''ZWONA'',
          ''ZWRSF'', ''ZWSCH'', ''ZWAFLI'', ''ZWBORD'', ''ZWEFLI'',
          ''ZWRISS'', ''ZWWURZ'', ''GW'', ''GEB'', ''SUB'']),
      (''hiline_section'', [''VNK'', ''NNK'']),
      (''hiline_lane'', [''FS''])]"

text \<open>\<open>{h.lower(): h for h in self.csv_headers}\<close>: a later header replaces an earlier one.\<close>

definition csv_header_map :: "string list \<Rightarrow> (string \<times> string) list" where
  "csv_header_map hs = foldl (\<lambda>m h. AList.update (py_lower h) h m) [] hs"

fun smart_fields :: "string list \<Rightarrow> string \<Rightarrow> string list \<Rightarrow> (string \<times> string) list \<times> nat
    \<Rightarrow> (string \<times> string) list \<times> nat" where
  "smart_fields widgets actual_csv_col [] acc = acc"
| "smart_fields widgets actual_csv_col (target_field # rest) (m, matched) =
     (if List.member widgets target_field
      then smart_fields widgets actual_csv_col rest
             (AList.update target_field actual_csv_col m, matched + 1)
      else smart_fields widgets actual_csv_col rest (m, matched))"

fun smart_rules :: "string list \<Rightarrow> (string \<times> string) list \<Rightarrow> (string \<times> string list) list
    \<Rightarrow> (string \<times> string) list \<times> nat \<Rightarrow> (string \<times> string) list \<times> nat" where
  "smart_rules widgets hmap [] acc = acc"
| "smart_rules widgets hmap ((csv_col_key, target_fields) # rest) acc =
     (case map_of hmap (py_lower csv_col_key) of
        Some actual_csv_col \<Rightarrow>
          smart_rules widgets hmap rest (smart_fields widgets actual_csv_col target_fields acc)
      | None \<Rightarrow> smart_rules widgets hmap rest acc)"

text \<open>\<open>smart_auto_map\<close> returns the new state and the number shown in the message box.\<close>

definition smart_auto_map :: "app \<Rightarrow> app \<times> nat option" where
  "smart_auto_map s =
     (if csv_headers s = [] then (s, None)
      else
        let s1 = clear_mappings s;
            r = smart_rules (TARGET_FIELDS s1) (csv_header_map (csv_headers s1)) mapping_rules
                  (mappings s1, 0)
        in (s1\<lparr>mappings := fst r\<rparr>, Some (snd r)))"

subsection \<open>Editing the target fields\<close>

fun restore_mappings :: "string list \<Rightarrow> string list \<Rightarrow> (string \<times> string) list
    \<Rightarrow> (string \<times> string) list \<Rightarrow> (string \<times> string) list" where
  "restore_mappings widgets hs [] m = m"
| "restore_mappings widgets hs ((field_name, csv_col) # rest) m =
     (if List.member widgets field_name \<and> List.member hs csv_col
      then restore_mappings widgets hs rest (AList.update field_name csv_col m)
      else restore_mappings widgets hs rest m)"

definition rebuild_target_panel :: "(string \<times> string) list \<Rightarrow> app \<Rightarrow> app" where
  "rebuild_target_panel old_mappings s =
     (let s1 = s\<lparr>mappings := []\<rparr>
      in if csv_headers s1 \<noteq> [] \<and> old_mappings \<noteq> []
         then s1\<lparr>mappings :=
                  restore_mappings (TARGET_FIELDS s1) (csv_headers s1) old_mappings (mappings s1)\<rparr>
         else s1)"

text \<open>The argument is the dialog's \<open>result\<close>: \<open>None\<close> when it was cancelled.\<close>

definition edit_target_fields :: "string list option \<Rightarrow> app \<Rightarrow> app" where
  "edit_target_fields dialog_result s =
     (let old_mappings = mappings s
      in case dialog_result of
           None \<Rightarrow> s
         | Some new_fields \<Rightarrow>
             if new_fields = [] then s
             else (rebuild_target_panel old_mappings (s\<lparr>TARGET_FIELDS := new_fields\<rparr>))
                    \<lparr>calculated_data := None\<rparr>)"

section \<open>Loading a file\<close>

text \<open>
  Reading the file is input to the model. A \<open>read_attempt\<close> is what one pass of the
  loop over the four encodings meets: an exception, with the statement that raised it
  (opening and sampling the file, reading the header row, reading the data rows), or
  the detected delimiter, the header row after stripping, and the data rows. The list
  given to \<open>load_csv\<close> holds one attempt per encoding, in the order of the loop.
\<close>

datatype io_error = UnicodeDecodeError | OtherError

datatype read_attempt =
    FailsOnOpen io_error
  | FailsOnHeader char io_error
  | FailsOnRows char "string list" io_error
  | Reads char "string list" "string list list"

text \<open>
  The loop \<open>for encoding in encodings\<close>; the flag is \<open>True\<close> when the loop left through
  \<open>break\<close> and \<open>False\<close> when an exception reached the outer handler.
\<close>

fun read_file :: "read_attempt list \<Rightarrow> app \<Rightarrow> app \<times> bool" where
  "read_file [] s = (s, False)"
| "read_file (FailsOnOpen UnicodeDecodeError # rest) s = read_file rest s"
| "read_file (FailsOnOpen OtherError # rest) s = (s, False)"
| "read_file (FailsOnHeader d UnicodeDecodeError # rest) s =
     read_file rest (s\<lparr>csv_delimiter := d\<rparr>)"
| "read_file (FailsOnHeader d OtherError # rest) s = (s\<lparr>csv_delimiter := d\<rparr>, False)"
| "read_file (FailsOnRows d hs UnicodeDecodeError # rest) s =
     read_file rest (s\<lparr>csv_delimiter := d, csv_headers := hs\<rparr>)"
| "read_file (FailsOnRows d hs OtherError # rest) s =
     (s\<lparr>csv_delimiter := d, csv_headers := hs\<rparr>, False)"
| "read_file (Reads d hs rows # rest) s =
     (s\<lparr>csv_delimiter := d, csv_headers := hs, csv_data := rows\<rparr>, True)"

datatype load_outcome = NoFileChosen | Loaded | LoadFailed

definition load_csv :: "string option \<Rightarrow> read_attempt list \<Rightarrow> app \<Rightarrow> load_outcome \<times> app" where
  "load_csv file_path attempts s =
     (case file_path of
        None \<Rightarrow> (NoFileChosen, s)
      | Some path \<Rightarrow>
          (case read_file (take 4 attempts) s of
             (s1, True) \<Rightarrow> (Loaded, s1\<lparr>csv_file_path := Some path, calculated_data := None\<rparr>)
           | (s1, False) \<Rightarrow> (LoadFailed, s1)))"

section \<open>The calculation\<close>

text \<open>\<open>{h: i for i, h in enumerate(self.csv_headers)}\<close>.\<close>

definition header_index :: "string list \<Rightarrow> (string \<times> nat) list" where
  "header_index hs = foldl (\<lambda>m (i, h). AList.update h i m) [] (enumerate 0 hs)"

definition raw_value :: "(string \<times> nat) list \<Rightarrow> string list \<Rightarrow> string \<Rightarrow> string" where
  "raw_value hidx row csv_column =
     (let csv_col_index = (case map_of hidx csv_column of Some i \<Rightarrow> int i | None \<Rightarrow> - 1)
      in if 0 \<le> csv_col_index \<and> csv_col_index < int (length row)
         then row ! nat csv_col_index else [])"

text \<open>\<open>self.calculated_data[target_field].append(value)\<close>.\<close>

definition table_append :: "table \<Rightarrow> string \<Rightarrow> pyval \<Rightarrow> py_exception + table" where
  "table_append tbl target_field v =
     (case map_of tbl target_field of
        None \<Rightarrow> Inl KeyError
      | Some col \<Rightarrow> Inr (AList.update target_field (col @ [v]) tbl))"

fun calc_fields :: "py_runtime \<Rightarrow> (string \<times> nat) list \<Rightarrow> string list
    \<Rightarrow> (string \<times> string) list \<Rightarrow> table \<Rightarrow> py_exception + table" where
  "calc_fields rt hidx row [] tbl = Inr tbl"
| "calc_fields rt hidx row ((target_field, csv_column) # rest) tbl =
     (case transform rt target_field csv_column (raw_value hidx row csv_column) of
        Inl e \<Rightarrow> Inl e
      | Inr v \<Rightarrow>
          (case table_append tbl target_field v of
             Inl e \<Rightarrow> Inl e
           | Inr tbl' \<Rightarrow> calc_fields rt hidx row rest tbl'))"

text \<open>
  The loop over the rows. \<open>signal i\<close> says that a collaborator holding the dialog has set
  its \<open>cancelled\<close> flag by the time row \<open>i\<close> is reached; the loop itself never reads the flag.
\<close>

fun calc_rows :: "py_runtime \<Rightarrow> (nat \<Rightarrow> bool) \<Rightarrow> (string \<times> nat) list \<Rightarrow> (string \<times> string) list
    \<Rightarrow> nat \<Rightarrow> nat \<Rightarrow> string list list \<Rightarrow> progress_dialog \<Rightarrow> table
    \<Rightarrow> progress_dialog \<times> (py_exception + table)" where
  "calc_rows rt signal hidx active total_rows row_idx [] p tbl = (p, Inr tbl)"
| "calc_rows rt signal hidx active total_rows row_idx (row # rows) p tbl =
     (let p1 = (if signal row_idx then p\<lparr>cancelled := True\<rparr> else p);
          p2 = (if row_idx mod 100 = 0 then progress_update row_idx total_rows p1 else p1)
      in case calc_fields rt hidx row active tbl of
           Inl e \<Rightarrow> (p2, Inl e)
         | Inr tbl' \<Rightarrow> calc_rows rt signal hidx active total_rows (Suc row_idx) rows p2 tbl')"

datatype calc_outcome =
    WarnNoMappings
  | WarnNoData
  | CalculationComplete
  | CalculationFailed py_exception

record calc_run =
  outcome :: calc_outcome
  dialog :: "progress_dialog option"
  after :: app

definition calculate_data :: "py_runtime \<Rightarrow> (nat \<Rightarrow> bool) \<Rightarrow> app \<Rightarrow> calc_run" where
  "calculate_data rt signal s =
     (if mappings s = [] then \<lparr>outcome = WarnNoMappings, dialog = None, after = s\<rparr>
      else if csv_data s = [] then \<lparr>outcome = WarnNoData, dialog = None, after = s\<rparr>
      else
        let progress = \<lparr>cancelled = False, current = 0, total = 0\<rparr>;
            total_rows = length (csv_data s);
            active_mappings = filter (\<lambda>(k, v). v \<noteq> []) (mappings s);
            hidx = header_index (csv_headers s);
            s1 = s\<lparr>calculated_data := Some (map (\<lambda>(field, v). (field, [])) active_mappings)\<rparr>
        in case calc_rows rt signal hidx active_mappings total_rows 0 (csv_data s) progress
                  (the (calculated_data s1)) of
             (p, Inr tbl) \<Rightarrow>
               \<lparr>outcome = CalculationComplete,
                dialog = Some (progress_close (progress_update total_rows total_rows p)),
                after = s1\<lparr>calculated_data := Some tbl\<rparr>\<rparr>
           | (p, Inl e) \<Rightarrow>
               \<lparr>outcome = CalculationFailed e,
                dialog = Some (progress_close p),
                after = s1\<lparr>calculated_data := None\<rparr>\<rparr>)"

section \<open>Export\<close>

text \<open>\<open>str(value)\<close>.\<close>

definition py_str :: "py_runtime \<Rightarrow> pyval \<Rightarrow> string" where
  "py_str rt v =
     (case v of
        PStr s \<Rightarrow> s
      | PInt n \<Rightarrow> py_str_int n
      | PBool b \<Rightarrow> (if b then ''True'' else ''False'')
      | PNone \<Rightarrow> ''None''
      | _ \<Rightarrow> repr_of rt v)"

text \<open>One cell of a data row in \<open>_save_as_csv\<close> and \<open>_save_as_access\<close>.\<close>

definition export_cell :: "py_runtime \<Rightarrow> pyval \<Rightarrow> string" where
  "export_cell rt v = (if v = PNone then [] else py_str rt v)"

text \<open>The guard of \<open>save_to_access\<close>: a missing or empty table is refused.\<close>

definition export_allowed :: "app \<Rightarrow> bool" where
  "export_allowed s = (case calculated_data s of None \<Rightarrow> False | Some tbl \<Rightarrow> tbl \<noteq> [])"

section \<open>Auxiliary notions for the proofs\<close>

text \<open>The table the row loop builds, without the dialog.\<close>

fun rows_table :: "py_runtime \<Rightarrow> (string \<times> nat) list \<Rightarrow> (string \<times> string) list
    \<Rightarrow> string list list \<Rightarrow> table \<Rightarrow> py_exception + table" where
  "rows_table rt hidx active [] tbl = Inr tbl"
| "rows_table rt hidx active (row # rows) tbl =
     (case calc_fields rt hidx row active tbl of
        Inl e \<Rightarrow> Inl e
      | Inr tbl' \<Rightarrow> rows_table rt hidx active rows tbl')"

definition active_of :: "app \<Rightarrow> (string \<times> string) list" where
  "active_of s = filter (\<lambda>(k, v). v \<noteq> []) (mappings s)"

definition fresh_table :: "app \<Rightarrow> table" where
  "fresh_table s = map (\<lambda>(field, v). (field, [])) (active_of s)"

definition never_signalled :: "nat \<Rightarrow> bool" where
  "never_signalled i = False"

definition always_signalled :: "nat \<Rightarrow> bool" where
  "always_signalled i = True"

section \<open>Example inputs\<close>

text \<open>
  Three documents, and a text of 100000 opening brackets, on which \<open>json.loads\<close> gives
  up with a \<open>RecursionError\<close>.
\<close>

definition doc_geb :: string where
  \<open>doc_geb = ''{"evaluation_result":{"overall":{"geb":3}}}''\<close>

definition doc_no_path :: string where
  \<open>doc_no_path = ''{"evaluation_result":{"tp3":7}}''\<close>

definition doc_broken :: string where
  \<open>doc_broken = ''{"evaluation_result":''\<close>

definition doc_deep :: string where
  "doc_deep = replicate 100000 (CHR ''['')"

text \<open>
  Upper-casing for the examples. The small letters \<open>a\<close> to \<open>z\<close> and those from 224 to 254
  (247 is the division sign) have their capital 32 places before them, and the sharp s
  (223) becomes \<open>SS\<close>. The micro sign and the y with diaeresis, whose capitals are not
  among the characters of the model, are left as they are; no example contains them.
\<close>

definition example_upper :: "char \<Rightarrow> string" where
  "example_upper c =
     (let n = (of_char c :: nat)
      in if (97 \<le> n \<and> n \<le> 122) \<or> (224 \<le> n \<and> n \<le> 254 \<and> n \<noteq> 247)
           then [char_of (n - 32)]
         else if n = 223 then ''SS''
         else [c])"

text \<open>
  The runtime of the examples. Its loader answers for the texts the examples use: the
  two complete documents, the text of 100000 opening brackets, and texts that are no
  JSON document, such as the empty text and the document that breaks off.
\<close>

definition example_runtime :: py_runtime where
  "example_runtime =
     \<lparr>json_loads = (\<lambda>s.
         if s = doc_geb
           then Inr (PDict [(''evaluation_result'',
                       PDict [(''overall'', PDict [(''geb'', PInt 3)])])])
         else if s = doc_no_path
           then Inr (PDict [(''evaluation_result'', PDict [(''tp3'', PInt 7)])])
         else if int (length s) = 100000 \<and> list_all (\<lambda>c. c = CHR ''['') s
           then Inl RecursionError
         else Inl JSONDecodeError),
      int_max_str_digits = 4300,
      repr_of = (\<lambda>v. ''?''),
      str_upper = (\<lambda>s. concat (map example_upper s))\<rparr>"

text \<open>
  A loaded file with a ragged second row, four mapped fields of which \<open>VNK\<close> names a
  column the file does not have, and a table left by an earlier run.
\<close>

definition example_state :: app where
  "example_state =
     \<lparr>TARGET_FIELDS = [''ID'', ''KLASSE'', ''GEB'', ''VNK''],
      csv_headers = [''id'', ''hiline_road'', ''business_data''],
      csv_data = [[''1'', ''l0048'', doc_geb], [''2'']],
      mappings = [(''ID'', ''id''), (''KLASSE'', ''hiline_road''),
                  (''GEB'', ''business_data''), (''VNK'', ''hiline_section'')],
      csv_file_path = Some ''in.csv'',
      calculated_data = Some [(''ID'', [PStr ''old''])],
      csv_delimiter = CHR '',''\<rparr>"

text \<open>
  A file with one column and one row, whose cell is the text of 100000 opening brackets,
  and a table left by an earlier run.
\<close>

definition example_state_deep :: app where
  "example_state_deep =
     \<lparr>TARGET_FIELDS = [''GEB''],
      csv_headers = [''business_data''],
      csv_data = [[doc_deep]],
      mappings = [(''GEB'', ''business_data'')],
      csv_file_path = Some ''deep.csv'',
      calculated_data = Some [(''GEB'', [PInt 3])],
      csv_delimiter = CHR '',''\<rparr>"

text \<open>The example file after a load that left it without any header.\<close>

definition example_state_no_headers :: app where
  "example_state_no_headers = example_state\<lparr>csv_headers := []\<rparr>"

text \<open>
  A second file whose header row is read and whose data rows make the reader raise an
  error that is not a decoding error.
\<close>

definition example_failing_read :: "read_attempt list" where
  "example_failing_read = [FailsOnRows (CHR '';'') [''a'', ''b''] OtherError]"

section \<open>Properties of the value extractors\<close>

subsection \<open>Splitting a section name\<close>

text \<open>
  C4. With the source column named \<open>hiline_section\<close> in any letter case, a value of
  length at least 2 gives its first \<open>length div 2\<close> characters for \<open>VNK\<close> and the rest for
  \<open>NNK\<close>; a shorter value is returned unchanged by both; and for a value of even length
  the two results put together are the value again.
\<close>

theorem vnk_nnk_split:
  assumes "py_lower csv_column = ''hiline_section''"
  shows "(2 \<le> length s \<longrightarrow>
            transform rt ''VNK'' csv_column s = Inr (PStr (take (length s div 2) s)) \<and>
            transform rt ''NNK'' csv_column s = Inr (PStr (drop (length s div 2) s))) \<and>
         (length s < 2 \<longrightarrow>
            transform rt ''VNK'' csv_column s = Inr (PStr s) \<and>
            transform rt ''NNK'' csv_column s = Inr (PStr s)) \<and>
         (even (length s) \<longrightarrow>
            (\<exists>a b. transform rt ''VNK'' csv_column s = Inr (PStr a) \<and>
                   transform rt ''NNK'' csv_column s = Inr (PStr b) \<and> a @ b = s))"
proof -
  have v: "transform rt ''VNK'' csv_column s = Inr (PStr (extract_vnk s))"
    using assms by (simp add: transform_def)
  have n: "transform rt ''NNK'' csv_column s = Inr (PStr (extract_nnk s))"
    using assms by (simp add: transform_def)
  have long: "2 \<le> length s \<Longrightarrow>
      extract_vnk s = take (length s div 2) s \<and> extract_nnk s = drop (length s div 2) s"
    by (auto simp: extract_vnk_def extract_nnk_def)
  have short: "length s < 2 \<Longrightarrow> extract_vnk s = s \<and> extract_nnk s = s"
    by (auto simp: extract_vnk_def extract_nnk_def)
  have whole: "2 \<le> length s \<Longrightarrow> extract_vnk s @ extract_nnk s = s"
    using long by simp
  have empty: "length s = 0 \<Longrightarrow> extract_vnk s @ extract_nnk s = s"
    by (simp add: extract_vnk_def extract_nnk_def)
  have "even (length s) \<Longrightarrow> 2 \<le> length s \<or> length s = 0"
    by presburger
  with whole empty have joined: "even (length s) \<Longrightarrow> extract_vnk s @ extract_nnk s = s"
    by blast
  show ?thesis
    using v n long short joined by simp
qed

theorem vnk_nnk_split_witness:
  "py_lower ''HiLine_Section'' = ''hiline_section'' \<and> 2 \<le> length ''ABCDEF'' \<and>
   even (length ''ABCDEF'') \<and> length ''A'' < 2 \<and>
   transform example_runtime ''VNK'' ''HiLine_Section'' ''ABCDEF'' = Inr (PStr ''ABC'') \<and>
   transform example_runtime ''NNK'' ''HiLine_Section'' ''ABCDEF'' = Inr (PStr ''DEF'') \<and>
   transform example_runtime ''VNK'' ''HiLine_Section'' ''A'' = Inr (PStr ''A'') \<and>
   transform example_runtime ''NNK'' ''HiLine_Section'' ''A'' = Inr (PStr ''A'')"
proof -
  have h: "py_lower ''HiLine_Section'' = ''hiline_section''"
    by code_simp
  show ?thesis
    using h vnk_nnk_split [OF h, of "''ABCDEF''" example_runtime] vnk_nnk_split [OF h, of "''A''" example_runtime]
    by simp
qed

subsection \<open>The business data document\<close>

lemma py_lower_names:
  "py_lower ''EFLI'' = ''efli''" "py_lower ''AFLI'' = ''afli''" "py_lower ''RISS'' = ''riss''"
  "py_lower ''ONA'' = ''ona''"
  "py_lower ''ZWAUS'' = ''zwaus''" "py_lower ''ZWBIN'' = ''zwbin''" "py_lower ''ZWONA'' = ''zwona''"
  "py_lower ''ZWRSF'' = ''zwrsf''" "py_lower ''ZWSCH'' = ''zwsch''" "py_lower ''ZWAFLI'' = ''zwafli''"
  "py_lower ''ZWBORD'' = ''zwbord''" "py_lower ''ZWEFLI'' = ''zwefli''" "py_lower ''ZWRISS'' = ''zwriss''"
  "py_lower ''ZWWURZ'' = ''zwwurz''"
  "py_lower ''GW'' = ''gw''" "py_lower ''GEB'' = ''geb''" "py_lower ''SUB'' = ''sub''"
  by code_simp+

text \<open>The three dictionaries of the code hold the path table of the specification.\<close>

lemma spec_path_code:
  assumes "List.member business_data_targets t" and "spec_path t = Some (k1, k2, k3)"
  shows "(map_of survey_tp3_fields t = Some k3 \<and> k1 = ''survey_result'' \<and> k2 = ''tp3'') \<or>
    (map_of survey_tp3_fields t = None \<and> map_of eval_tp3_fields t = Some k3
       \<and> k1 = ''evaluation_result'' \<and> k2 = ''tp3'') \<or>
    (map_of survey_tp3_fields t = None \<and> map_of eval_tp3_fields t = None
       \<and> map_of overall_fields t = Some k3 \<and> k1 = ''evaluation_result'' \<and> k2 = ''overall'')"
  using assms
  apply (simp add: business_data_targets_def)
  apply (elim disjE)
  apply (simp_all add: spec_path_def survey_tp3_fields_def eval_tp3_fields_def
      overall_fields_def py_lower_names)
  done


lemma business_target_not_special:
  "List.member business_data_targets t \<Longrightarrow>
     t \<noteq> ''VNK'' \<and> t \<noteq> ''NNK'' \<and> t \<noteq> ''KLASSE'' \<and> t \<noteq> ''NUMMER''"
  by (auto simp: business_data_targets_def)

lemma transform_business:
  assumes "py_lower csv_column = ''business_data''" and "List.member business_data_targets t"
  shows "transform rt t csv_column raw = extract_from_business_data rt raw t"
  using assms business_target_not_special [OF assms(2)] by (simp add: transform_def)

lemma get3_found:
  "value_at d (k1, k2, k3) = Some v \<Longrightarrow> get3 d k1 k2 k3 = Inr v"
  by (auto simp: value_at_def member_of_def get3_def dict_get_def
           split: option.splits pyval.splits)


lemma extract_business_get3:
  assumes "List.member business_data_targets t" and "spec_path t = Some (k1, k2, k3)"
    and "json_loads rt raw = Inr d"
  shows "extract_from_business_data rt raw t =
           (case get3 d k1 k2 k3 of
              Inl e \<Rightarrow> (if caught e then Inr (PStr []) else Inl e)
            | Inr v \<Rightarrow> Inr v)"
  using spec_path_code [OF assms(1,2)] assms(3)
  by (auto simp: extract_from_business_data_def)

lemma extract_business_raise:
  "json_loads rt raw = Inl e \<Longrightarrow>
     extract_from_business_data rt raw t = (if caught e then Inr (PStr []) else Inl e)"
  by (simp add: extract_from_business_data_def)


lemma extract_business_found:
  assumes "List.member business_data_targets t" and "spec_path t = Some p"
    and "json_loads rt raw = Inr d" and "value_at d p = Some v"
  shows "extract_from_business_data rt raw t = Inr v"
proof -
  obtain k1 k2 k3 where p: "p = (k1, k2, k3)"
    by (cases p) auto
  from get3_found [of d k1 k2 k3 v] assms(4) p have "get3 d k1 k2 k3 = Inr v"
    by simp
  then show ?thesis
    using extract_business_get3 [OF assms(1) assms(2) [unfolded p] assms(3)] by simp
qed

lemma doc_deep_shape:
  "length doc_deep = 100000" "list_all (\<lambda>c. c = CHR ''['') doc_deep"
  by (simp_all add: doc_deep_def list_all_iff)

lemma doc_deep_other: "doc_deep \<noteq> doc_geb" "doc_deep \<noteq> doc_no_path"
proof -
  have "length doc_geb \<noteq> 100000" "length doc_no_path \<noteq> 100000"
    by (simp_all add: doc_geb_def doc_no_path_def)
  with doc_deep_shape(1) show "doc_deep \<noteq> doc_geb" "doc_deep \<noteq> doc_no_path"
    by auto
qed

lemma example_loads:
  "json_loads example_runtime doc_geb =
     Inr (PDict [(''evaluation_result'', PDict [(''overall'', PDict [(''geb'', PInt 3)])])])"
  "json_loads example_runtime doc_no_path =
     Inr (PDict [(''evaluation_result'', PDict [(''tp3'', PInt 7)])])"
  "json_loads example_runtime doc_broken = Inl JSONDecodeError"
  "json_loads example_runtime doc_deep = Inl RecursionError"
  "json_loads example_runtime [] = Inl JSONDecodeError"
proof -
  show "json_loads example_runtime doc_geb =
     Inr (PDict [(''evaluation_result'', PDict [(''overall'', PDict [(''geb'', PInt 3)])])])"
    by (simp add: example_runtime_def)
  show "json_loads example_runtime doc_no_path =
     Inr (PDict [(''evaluation_result'', PDict [(''tp3'', PInt 7)])])"
    by (simp add: example_runtime_def doc_geb_def doc_no_path_def)
  show "json_loads example_runtime doc_broken = Inl JSONDecodeError"
    by (simp add: example_runtime_def doc_geb_def doc_no_path_def doc_broken_def)
  show "json_loads example_runtime doc_deep = Inl RecursionError"
    by (simp add: example_runtime_def doc_deep_shape doc_deep_other)
  show "json_loads example_runtime [] = Inl JSONDecodeError"
    by (simp add: example_runtime_def doc_geb_def doc_no_path_def)
qed

text \<open>The cell of 100000 opening brackets makes the extractor raise.\<close>

lemma example_deep_cell:
  "transform example_runtime ''GEB'' ''business_data'' doc_deep = Inl RecursionError"
proof -
  have h1: "py_lower ''business_data'' = ''business_data''"
    by code_simp
  have h2: "List.member business_data_targets ''GEB''"
    by (simp add: business_data_targets_def)
  show ?thesis
    using transform_business [OF h1 h2, of example_runtime doc_deep]
      extract_business_raise [OF example_loads(4), of "''GEB''"]
    by (simp add: caught_def)
qed




text \<open>
  C9. With the source column named \<open>business_data\<close> and one of the sixteen target fields,
  a decoded document in which the field's path leads to a value gives that value as it
  is, whatever its type; the row loop appends it to the column unchanged; a number is
  therefore stored as a number, not as its text, and becomes text only in the export cell.
\<close>

theorem business_data_value_is_kept:
  assumes "py_lower csv_column = ''business_data''"
    and "List.member business_data_targets target_field"
    and "json_loads rt raw = Inr d"
    and "spec_path target_field = Some p"
    and "value_at d p = Some v"
  shows "transform rt target_field csv_column raw = Inr v \<and>
         (raw_value hidx row csv_column = raw \<longrightarrow>
            calc_fields rt hidx row [(target_field, csv_column)] [(target_field, col)]
              = Inr [(target_field, col @ [v])]) \<and>
         (\<forall>n. v = PInt n \<longrightarrow> v \<noteq> PStr (py_str_int n) \<and> export_cell rt v = py_str_int n)"
proof -
  have t: "transform rt target_field csv_column raw = Inr v"
    using transform_business [OF assms(1,2), of rt raw]
      extract_business_found [OF assms(2) assms(4) assms(3) assms(5)] by simp
  have c: "raw_value hidx row csv_column = raw \<Longrightarrow>
      calc_fields rt hidx row [(target_field, csv_column)] [(target_field, col)]
        = Inr [(target_field, col @ [v])]"
    using t by (simp add: table_append_def)
  have e: "\<And>n. v = PInt n \<Longrightarrow> export_cell rt v = py_str_int n"
    by (simp add: export_cell_def py_str_def)
  show ?thesis
    using t c e by auto
qed

theorem business_data_value_is_kept_witness:
  "py_lower ''business_data'' = ''business_data'' \<and>
   List.member business_data_targets ''GEB'' \<and>
   json_loads example_runtime doc_geb
     = Inr (PDict [(''evaluation_result'', PDict [(''overall'', PDict [(''geb'', PInt 3)])])]) \<and>
   spec_path ''GEB'' = Some (''evaluation_result'', ''overall'', ''geb'') \<and>
   value_at (PDict [(''evaluation_result'', PDict [(''overall'', PDict [(''geb'', PInt 3)])])])
     (''evaluation_result'', ''overall'', ''geb'') = Some (PInt 3) \<and>
   raw_value [(''business_data'', 0)] [doc_geb] ''business_data'' = doc_geb \<and>
   transform example_runtime ''GEB'' ''business_data'' doc_geb = Inr (PInt 3) \<and>
   calc_fields example_runtime [(''business_data'', 0)] [doc_geb]
     [(''GEB'', ''business_data'')] [(''GEB'', [])] = Inr [(''GEB'', [PInt 3])] \<and>
   PInt 3 \<noteq> PStr ''3'' \<and>
   export_cell example_runtime (PInt 3) = ''3''"
proof -
  have h1: "py_lower ''business_data'' = ''business_data''"
    by code_simp
  have h2: "List.member business_data_targets ''GEB''"
    by (simp add: business_data_targets_def)
  have h4: "spec_path ''GEB'' = Some (''evaluation_result'', ''overall'', ''geb'')"
    by (simp add: spec_path_def py_lower_names)
  have h5: "value_at
     (PDict [(''evaluation_result'', PDict [(''overall'', PDict [(''geb'', PInt 3)])])])
     (''evaluation_result'', ''overall'', ''geb'') = Some (PInt 3)"
    by (simp add: value_at_def member_of_def)
  have h6: "raw_value [(''business_data'', 0)] [doc_geb] ''business_data'' = doc_geb"
    by (simp add: raw_value_def)
  have s3: "py_str_int 3 = ''3''"
    by code_simp
  show ?thesis
    using h1 h2 example_loads(1) h4 h5 h6 s3
      business_data_value_is_kept [OF h1 h2 example_loads(1) h4 h5,
        of "[(''business_data'', 0)]" "[doc_geb]" "[]"]
    by (simp del: calc_fields.simps)
qed

section \<open>Properties of the calculation\<close>

lemma calc_rows_table:
  "snd (calc_rows rt signal hidx active total_rows row_idx rows p tbl)
     = rows_table rt hidx active rows tbl"
  by (induction rows arbitrary: row_idx p tbl) (auto simp: Let_def split: sum.splits)

lemma calculate_data_run:
  assumes "mappings s \<noteq> []" and "csv_data s \<noteq> []"
  shows "outcome (calculate_data rt signal s) =
           (case rows_table rt (header_index (csv_headers s)) (active_of s) (csv_data s)
                   (fresh_table s) of
              Inr tbl \<Rightarrow> CalculationComplete | Inl e \<Rightarrow> CalculationFailed e)"
    and "after (calculate_data rt signal s) =
           s\<lparr>calculated_data :=
               (case rows_table rt (header_index (csv_headers s)) (active_of s) (csv_data s)
                       (fresh_table s) of
                  Inr tbl \<Rightarrow> Some tbl | Inl e \<Rightarrow> None)\<rparr>"
proof -
  let ?run = "calc_rows rt signal (header_index (csv_headers s)) (active_of s)
                (length (csv_data s)) 0 (csv_data s)
                \<lparr>cancelled = False, current = 0, total = 0\<rparr> (fresh_table s)"
  have sn: "snd ?run = rows_table rt (header_index (csv_headers s)) (active_of s) (csv_data s)
                   (fresh_table s)"
    by (rule calc_rows_table)
  obtain p r where pr: "?run = (p, r)"
    by (cases ?run) auto
  with sn have r: "r = rows_table rt (header_index (csv_headers s)) (active_of s) (csv_data s)
                   (fresh_table s)"
    by simp
  show "outcome (calculate_data rt signal s) =
           (case rows_table rt (header_index (csv_headers s)) (active_of s) (csv_data s)
                   (fresh_table s) of
              Inr tbl \<Rightarrow> CalculationComplete | Inl e \<Rightarrow> CalculationFailed e)"
    using assms pr r [symmetric]
    by (cases r) (simp_all add: calculate_data_def Let_def active_of_def fresh_table_def)
  show "after (calculate_data rt signal s) =
           s\<lparr>calculated_data :=
               (case rows_table rt (header_index (csv_headers s)) (active_of s) (csv_data s)
                       (fresh_table s) of
                  Inr tbl \<Rightarrow> Some tbl | Inl e \<Rightarrow> None)\<rparr>"
    using assms pr r [symmetric]
    by (cases r) (simp_all add: calculate_data_def Let_def active_of_def fresh_table_def)
qed

lemma calculate_data_refused:
  "mappings s = [] \<or> csv_data s = [] \<Longrightarrow>
     after (calculate_data rt signal s) = s \<and> dialog (calculate_data rt signal s) = None \<and>
     (outcome (calculate_data rt signal s) = WarnNoMappings \<or>
      outcome (calculate_data rt signal s) = WarnNoData)"
  by (auto simp: calculate_data_def)

lemma calc_fields_columns:
  assumes "calc_fields rt hidx row active tbl = Inr tbl'" and "distinct (map fst active)"
  shows "(t \<notin> fst ` set active \<longrightarrow> map_of tbl' t = map_of tbl t) \<and>
         ((t, c) \<in> set active \<longrightarrow>
            (\<exists>v col. transform rt t c (raw_value hidx row c) = Inr v \<and>
                     map_of tbl t = Some col \<and> map_of tbl' t = Some (col @ [v])))"
  using assms
proof (induction active arbitrary: tbl)
  case Nil
  then show ?case by simp
next
  case (Cons a rest)
  obtain t0 c0 where a: "a = (t0, c0)" by (cases a) auto
  from Cons.prems(1) a obtain v0 where v0: "transform rt t0 c0 (raw_value hidx row c0) = Inr v0"
    by (auto split: sum.splits)
  from Cons.prems(1) a v0 obtain tbl1 where t1: "table_append tbl t0 v0 = Inr tbl1"
    and rest: "calc_fields rt hidx row rest tbl1 = Inr tbl'"
    by (auto split: sum.splits)
  from t1 obtain col0 where col0: "map_of tbl t0 = Some col0"
    and tbl1: "tbl1 = AList.update t0 (col0 @ [v0]) tbl"
    by (auto simp: table_append_def split: option.splits)
  from Cons.prems(2) a have d: "distinct (map fst rest)" and n0: "t0 \<notin> fst ` set rest"
    by auto
  note ih = Cons.IH [OF rest d]
  have m1: "map_of tbl1 = (map_of tbl)(t0 \<mapsto> col0 @ [v0])"
    using tbl1 by (simp add: AList.update_conv')
  show ?case
  proof (intro conjI impI)
    assume "t \<notin> fst ` set (a # rest)"
    then have "t \<noteq> t0" "t \<notin> fst ` set rest" using a by auto
    with ih m1 show "map_of tbl' t = map_of tbl t" by simp
  next
    assume mem: "(t, c) \<in> set (a # rest)"
    show "\<exists>v col. transform rt t c (raw_value hidx row c) = Inr v \<and>
                     map_of tbl t = Some col \<and> map_of tbl' t = Some (col @ [v])"
    proof (cases "(t, c) = a")
      case True
      then have "t = t0" "c = c0" using a by auto
      with ih n0 m1 v0 col0 show ?thesis by simp
    next
      case False
      with mem have in_rest: "(t, c) \<in> set rest" by simp
      then have "t \<in> fst ` set rest" by force
      with n0 have "t \<noteq> t0" by auto
      with ih in_rest m1 show ?thesis by simp
    qed
  qed
qed

lemma rows_table_column:
  assumes "rows_table rt hidx active rows tbl = Inr tbl'" and "distinct (map fst active)"
    and "(t, c) \<in> set active" and "map_of tbl t = Some col"
  shows "\<exists>vs. map_of tbl' t = Some (col @ vs) \<and>
           map (\<lambda>row. transform rt t c (raw_value hidx row c)) rows = map Inr vs"
  using assms(1,4)
proof (induction rows arbitrary: tbl col)
  case Nil
  then show ?case by simp
next
  case (Cons row rows)
  from Cons.prems(1) obtain tbl1 where f: "calc_fields rt hidx row active tbl = Inr tbl1"
    and r: "rows_table rt hidx active rows tbl1 = Inr tbl'"
    by (auto split: sum.splits)
  from calc_fields_columns [OF f assms(2), of t c] assms(3) Cons.prems(2)
  obtain v where v: "transform rt t c (raw_value hidx row c) = Inr v"
    and c1: "map_of tbl1 t = Some (col @ [v])"
    by auto
  from Cons.IH [OF r c1] obtain vs where "map_of tbl' t = Some ((col @ [v]) @ vs)"
    and "map (\<lambda>row. transform rt t c (raw_value hidx row c)) rows = map Inr vs"
    by auto
  with v show ?case
    by (intro exI [of _ "v # vs"]) simp
qed

lemma fresh_table_column:
  "(t, c) \<in> set (active_of s) \<Longrightarrow> map_of (fresh_table s) t = Some []"
proof -
  assume m: "(t, c) \<in> set (active_of s)"
  have "map_of (map (\<lambda>(field, v). (field, [])) xs) t = Some []" if "(t, c) \<in> set xs"
    for xs :: "(string \<times> string) list"
    using that by (induction xs) auto
  with m show ?thesis by (simp add: fresh_table_def)
qed

lemma distinct_active: "distinct (map fst (mappings s)) \<Longrightarrow> distinct (map fst (active_of s))"
  by (simp add: active_of_def distinct_map_filter)

lemma header_index_fold_absent:
  "c \<notin> set hs \<Longrightarrow>
     map_of (foldl (\<lambda>m (i, h). AList.update h i m) m0 (enumerate n hs)) c = map_of m0 c"
  by (induction hs arbitrary: m0 n) (auto simp: AList.update_conv')

lemma header_index_fold_found:
  "map_of (foldl (\<lambda>m (i, h). AList.update h i m) m0 (enumerate n hs)) c = Some i \<Longrightarrow>
     map_of m0 c = Some i \<or> (n \<le> i \<and> i < n + length hs \<and> hs ! (i - n) = c)"
proof (induction hs arbitrary: m0 n)
  case Nil
  then show ?case by simp
next
  case (Cons h hs)
  from Cons.prems
  have "map_of (foldl (\<lambda>m (i, h). AList.update h i m) (AList.update h n m0)
          (enumerate (Suc n) hs)) c = Some i"
    by simp
  from Cons.IH [OF this]
  show ?case
    by (auto simp: AList.update_conv' nth_Cons' split: if_splits)
qed

lemma header_index_absent: "c \<notin> set hs \<Longrightarrow> map_of (header_index hs) c = None"
  by (simp add: header_index_def header_index_fold_absent)

lemma header_index_found:
  "map_of (header_index hs) c = Some i \<Longrightarrow> i < length hs \<and> hs ! i = c"
  using header_index_fold_found [of "[]" 0 hs c i] by (simp add: header_index_def)

lemma raw_value_absent: "c \<notin> set hs \<Longrightarrow> raw_value (header_index hs) row c = []"
  by (simp add: raw_value_def header_index_absent)

lemma raw_value_short:
  "map_of hidx c = Some i \<Longrightarrow> length row \<le> i \<Longrightarrow> raw_value hidx row c = []"
  by (simp add: raw_value_def)

lemma raw_value_present:
  "map_of hidx c = Some i \<Longrightarrow> i < length row \<Longrightarrow> raw_value hidx row c = row ! i"
  by (simp add: raw_value_def)

lemma transform_empty:
  assumes "json_loads rt [] = Inl JSONDecodeError"
  shows "transform rt t c [] = Inr (PStr [])"
  using assms
  by (simp add: transform_def extract_vnk_def extract_nnk_def extract_klasse_def
      extract_nummer_def extract_business_raise caught_def)

lemma example_run:
  "outcome (calculate_data example_runtime always_signalled example_state) = CalculationComplete"
  "calculated_data (after (calculate_data example_runtime always_signalled example_state)) =
     Some [(''ID'', [PStr ''1'', PStr ''2'']), (''KLASSE'', [PStr ''L48'', PStr []]),
           (''GEB'', [PInt 3, PStr []]), (''VNK'', [PStr [], PStr []])]"
  by code_simp+

lemma example_deep_table:
  "rows_table example_runtime (header_index (csv_headers example_state_deep))
     (active_of example_state_deep) (csv_data example_state_deep)
     (fresh_table example_state_deep) = Inl RecursionError"
proof -
  have a: "active_of example_state_deep = [(''GEB'', ''business_data'')]"
    by (simp add: active_of_def example_state_deep_def)
  have h: "header_index (csv_headers example_state_deep) = [(''business_data'', 0)]"
    by (simp add: header_index_def example_state_deep_def)
  have d: "csv_data example_state_deep = [[doc_deep]]"
    by (simp add: example_state_deep_def)
  have r: "raw_value [(''business_data'', 0)] [doc_deep] ''business_data'' = doc_deep"
    by (simp add: raw_value_def)
  show ?thesis
    by (simp add: a h d r example_deep_cell)
qed

lemma example_state_facts:
  "mappings example_state \<noteq> []" "csv_data example_state \<noteq> []"
  "mappings example_state_deep \<noteq> []" "csv_data example_state_deep \<noteq> []"
  "distinct (map fst (mappings example_state))"
  "''hiline_section'' \<notin> set (csv_headers example_state)"
  "(''VNK'', ''hiline_section'') \<in> set (mappings example_state)"
  "calculated_data example_state = Some [(''ID'', [PStr ''old''])]"
  "calculated_data example_state_deep = Some [(''GEB'', [PInt 3])]"
  "length (csv_data example_state) = 2"
  by (simp_all add: example_state_def example_state_deep_def)

lemma example_run_deep:
  "outcome (calculate_data example_runtime signal example_state_deep)
     = CalculationFailed RecursionError"
  "calculated_data (after (calculate_data example_runtime signal example_state_deep)) = None"
  using calculate_data_run [OF example_state_facts(3,4), of example_runtime signal]
    example_deep_table
  by simp_all

lemma example_rows_table:
  "rows_table example_runtime (header_index (csv_headers example_state))
     (active_of example_state) (csv_data example_state) (fresh_table example_state) =
     Inr [(''ID'', [PStr ''1'', PStr ''2'']), (''KLASSE'', [PStr ''L48'', PStr []]),
          (''GEB'', [PInt 3, PStr []]), (''VNK'', [PStr [], PStr []])]"
  by code_simp

text \<open>
  C1, as far as it holds. Whether or not the dialog's \<open>cancelled\<close> flag is set while the
  rows are handled, \<open>calculate_data\<close> ends with the outcome and the state of a run in
  which the flag is never set: the row loop does not read the flag, so no run is cut
  short by it. Once the two preconditions pass, the run goes through every row: when
  the row loop ends with a table, the run is complete and that table replaces the stored
  one, each of its columns holding the values computed from all the rows in order; when
  the row loop raises, the run has failed and no table is stored.
\<close>

theorem calculation_ignores_cancelled_flag:
  "outcome (calculate_data rt signal s) = outcome (calculate_data rt never_signalled s) \<and>
   after (calculate_data rt signal s) = after (calculate_data rt never_signalled s) \<and>
   (mappings s \<noteq> [] \<and> csv_data s \<noteq> [] \<longrightarrow>
      (\<forall>tbl. rows_table rt (header_index (csv_headers s)) (active_of s) (csv_data s)
               (fresh_table s) = Inr tbl \<longrightarrow>
         outcome (calculate_data rt signal s) = CalculationComplete \<and>
         after (calculate_data rt signal s) = s\<lparr>calculated_data := Some tbl\<rparr> \<and>
         (distinct (map fst (mappings s)) \<longrightarrow>
            (\<forall>t c. (t, c) \<in> set (active_of s) \<longrightarrow>
               (\<exists>vs. map_of tbl t = Some vs \<and>
                  map (\<lambda>row. transform rt t c
                         (raw_value (header_index (csv_headers s)) row c)) (csv_data s)
                    = map Inr vs)))) \<and>
      (\<forall>e. rows_table rt (header_index (csv_headers s)) (active_of s) (csv_data s)
               (fresh_table s) = Inl e \<longrightarrow>
         outcome (calculate_data rt signal s) = CalculationFailed e \<and>
         after (calculate_data rt signal s) = s\<lparr>calculated_data := None\<rparr>))"
proof -
  let ?hidx = "header_index (csv_headers s)"
  let ?loop = "rows_table rt ?hidx (active_of s) (csv_data s) (fresh_table s)"
  have same: "outcome (calculate_data rt signal s) = outcome (calculate_data rt never_signalled s) \<and>
      after (calculate_data rt signal s) = after (calculate_data rt never_signalled s)"
  proof (cases "mappings s = [] \<or> csv_data s = []")
    case True
    then show ?thesis by (auto simp: calculate_data_def)
  next
    case False
    then have "mappings s \<noteq> []" "csv_data s \<noteq> []" by auto
    from calculate_data_run [OF this] show ?thesis by simp
  qed
  have ok: "outcome (calculate_data rt signal s) = CalculationComplete \<and>
      after (calculate_data rt signal s) = s\<lparr>calculated_data := Some tbl\<rparr>"
    if "mappings s \<noteq> []" "csv_data s \<noteq> []" "?loop = Inr tbl" for tbl
    using calculate_data_run [OF that(1,2), of rt signal] that(3) by simp
  have cols: "\<exists>vs. map_of tbl t = Some vs \<and>
      map (\<lambda>row. transform rt t c (raw_value ?hidx row c)) (csv_data s) = map Inr vs"
    if "?loop = Inr tbl" "distinct (map fst (mappings s))" "(t, c) \<in> set (active_of s)"
    for tbl t c
    using rows_table_column [OF that(1) distinct_active [OF that(2)] that(3)
        fresh_table_column [OF that(3)]]
    by simp
  have bad: "outcome (calculate_data rt signal s) = CalculationFailed e \<and>
      after (calculate_data rt signal s) = s\<lparr>calculated_data := None\<rparr>"
    if "mappings s \<noteq> []" "csv_data s \<noteq> []" "?loop = Inl e" for e
    using calculate_data_run [OF that(1,2), of rt signal] that(3) by simp
  show ?thesis
    using same ok cols bad by blast
qed

theorem calculation_ignores_cancelled_flag_witness:
  "mappings example_state \<noteq> [] \<and> csv_data example_state \<noteq> [] \<and>
   rows_table example_runtime (header_index (csv_headers example_state))
     (active_of example_state) (csv_data example_state) (fresh_table example_state) =
     Inr [(''ID'', [PStr ''1'', PStr ''2'']), (''KLASSE'', [PStr ''L48'', PStr []]),
          (''GEB'', [PInt 3, PStr []]), (''VNK'', [PStr [], PStr []])] \<and>
   outcome (calculate_data example_runtime always_signalled example_state)
     = CalculationComplete \<and>
   after (calculate_data example_runtime always_signalled example_state) =
     example_state\<lparr>calculated_data :=
       Some [(''ID'', [PStr ''1'', PStr ''2'']), (''KLASSE'', [PStr ''L48'', PStr []]),
             (''GEB'', [PInt 3, PStr []]), (''VNK'', [PStr [], PStr []])]\<rparr> \<and>
   mappings example_state_deep \<noteq> [] \<and> csv_data example_state_deep \<noteq> [] \<and>
   rows_table example_runtime (header_index (csv_headers example_state_deep))
     (active_of example_state_deep) (csv_data example_state_deep)
     (fresh_table example_state_deep) = Inl RecursionError \<and>
   outcome (calculate_data example_runtime always_signalled example_state_deep)
     = CalculationFailed RecursionError \<and>
   after (calculate_data example_runtime always_signalled example_state_deep) =
     example_state_deep\<lparr>calculated_data := None\<rparr>"
  using example_state_facts(1,2,3,4) example_rows_table example_deep_table
    calculation_ignores_cancelled_flag [of example_runtime always_signalled example_state]
    calculation_ignores_cancelled_flag [of example_runtime always_signalled example_state_deep]
  by blast

text \<open>
  C1 as stated fails: with the flag set from the first row on, the run on the example
  file completes and the table of the earlier run is replaced by the new one.
\<close>

theorem cancel_signal_counterexample:
  "always_signalled 0 \<and>
   calculated_data example_state = Some [(''ID'', [PStr ''old''])] \<and>
   outcome (calculate_data example_runtime always_signalled example_state)
     = CalculationComplete \<and>
   calculated_data (after (calculate_data example_runtime always_signalled example_state)) =
     Some [(''ID'', [PStr ''1'', PStr ''2'']), (''KLASSE'', [PStr ''L48'', PStr []]),
           (''GEB'', [PInt 3, PStr []]), (''VNK'', [PStr [], PStr []])] \<and>
   calculated_data (after (calculate_data example_runtime always_signalled example_state))
     \<noteq> calculated_data example_state"
  by (simp add: example_run example_state_facts always_signalled_def)

text \<open>
  C2. \<open>calculate_data\<close> ends with one of its two warnings exactly when the mapping is
  empty or the file has no data rows, and it then returns the state it was given,
  without having opened a progress dialog.
\<close>

theorem calculate_refuses_empty_input:
  "((outcome (calculate_data rt signal s) = WarnNoMappings \<or>
     outcome (calculate_data rt signal s) = WarnNoData)
      \<longleftrightarrow> (mappings s = [] \<or> csv_data s = [])) \<and>
   (mappings s = [] \<or> csv_data s = [] \<longrightarrow>
      after (calculate_data rt signal s) = s \<and> dialog (calculate_data rt signal s) = None)"
proof (cases "mappings s = [] \<or> csv_data s = []")
  case True
  with calculate_data_refused [OF True, of rt signal] show ?thesis by blast
next
  case False
  then have ne: "mappings s \<noteq> []" "csv_data s \<noteq> []" by auto
  have "outcome (calculate_data rt signal s) \<noteq> WarnNoMappings \<and>
        outcome (calculate_data rt signal s) \<noteq> WarnNoData"
    using calculate_data_run(1) [OF ne, of rt signal] by (auto split: sum.splits)
  with False show ?thesis by blast
qed

theorem calculate_refuses_empty_input_witness:
  "mappings (clear_mappings example_state) = [] \<and>
   outcome (calculate_data example_runtime never_signalled (clear_mappings example_state))
     = WarnNoMappings \<and>
   after (calculate_data example_runtime never_signalled (clear_mappings example_state))
     = clear_mappings example_state \<and>
   csv_data (example_state\<lparr>csv_data := []\<rparr>) = [] \<and>
   outcome (calculate_data example_runtime never_signalled (example_state\<lparr>csv_data := []\<rparr>))
     = WarnNoData \<and>
   after (calculate_data example_runtime never_signalled (example_state\<lparr>csv_data := []\<rparr>))
     = example_state\<lparr>csv_data := []\<rparr> \<and>
   mappings example_state \<noteq> [] \<and> csv_data example_state \<noteq> [] \<and>
   outcome (calculate_data example_runtime never_signalled example_state) = CalculationComplete"
proof -
  have e: "outcome (calculate_data example_runtime never_signalled example_state)
      = CalculationComplete"
    by code_simp
  have w1: "outcome (calculate_data example_runtime never_signalled (clear_mappings example_state))
     = WarnNoMappings"
    by (simp add: calculate_data_def clear_mappings_def)
  have w2: "outcome (calculate_data example_runtime never_signalled (example_state\<lparr>csv_data := []\<rparr>))
     = WarnNoData"
    by (simp add: calculate_data_def example_state_def)
  show ?thesis
    using e w1 w2 example_state_facts(1,2)
      calculate_refuses_empty_input [of example_runtime never_signalled
        "clear_mappings example_state"]
      calculate_refuses_empty_input [of example_runtime never_signalled
        "example_state\<lparr>csv_data := []\<rparr>"]
    by (simp add: clear_mappings_def)
qed

text \<open>
  C10. Once the two preconditions pass, a run that ends in an exception leaves no
  calculated table; the table of an earlier run has no part in the result, because the
  run starts from a fresh table with an empty column per active field.
\<close>

theorem failed_run_leaves_no_table:
  assumes "mappings s \<noteq> []" and "csv_data s \<noteq> []"
  shows "(\<forall>e. outcome (calculate_data rt signal s) = CalculationFailed e \<longrightarrow>
            calculated_data (after (calculate_data rt signal s)) = None) \<and>
         calculated_data (after (calculate_data rt signal (s\<lparr>calculated_data := prev\<rparr>)))
           = calculated_data (after (calculate_data rt signal s)) \<and>
         outcome (calculate_data rt signal (s\<lparr>calculated_data := prev\<rparr>))
           = outcome (calculate_data rt signal s)"
proof -
  let ?s' = "s\<lparr>calculated_data := prev\<rparr>"
  have ne': "mappings ?s' \<noteq> []" "csv_data ?s' \<noteq> []"
    using assms by simp_all
  have same: "active_of ?s' = active_of s" "fresh_table ?s' = fresh_table s"
    by (simp_all add: active_of_def fresh_table_def)
  show ?thesis
    using calculate_data_run [OF assms, of rt signal] calculate_data_run [OF ne', of rt signal]
      same
    by (auto split: sum.splits)
qed

theorem failed_run_leaves_no_table_witness:
  "mappings example_state_deep \<noteq> [] \<and> csv_data example_state_deep \<noteq> [] \<and>
   csv_data example_state_deep = [[doc_deep]] \<and> length doc_deep = 100000 \<and>
   json_loads example_runtime doc_deep = Inl RecursionError \<and>
   calculated_data example_state_deep = Some [(''GEB'', [PInt 3])] \<and>
   outcome (calculate_data example_runtime never_signalled example_state_deep)
     = CalculationFailed RecursionError \<and>
   calculated_data (after (calculate_data example_runtime never_signalled example_state_deep))
     = None"
proof -
  have d: "csv_data example_state_deep = [[doc_deep]]"
    by (simp add: example_state_deep_def)
  show ?thesis
    using example_state_facts(3,4,9) d doc_deep_shape(1) example_loads(4)
      example_run_deep(1) [of never_signalled]
      failed_run_leaves_no_table [OF example_state_facts(3,4), of example_runtime
        never_signalled]
    by blast
qed

text \<open>
  C6. Provided the loader rejects the empty text with its decode error: for a source
  column that is not among the headers, the raw value of every row is the empty string
  and so is the cell computed from it, for any target field and without any exception;
  in a completed run the output column of a field mapped to such a column holds one empty
  string per data row. And for a column that is among the headers, a row that ends at or
  before the resolved index gives the empty string as raw value.
\<close>

theorem unresolved_column_gives_empty_cells:
  assumes "json_loads rt [] = Inl JSONDecodeError"
    and "csv_column \<notin> set (csv_headers s)"
  shows "(\<forall>row. raw_value (header_index (csv_headers s)) row csv_column = [] \<and>
            transform rt target_field csv_column
              (raw_value (header_index (csv_headers s)) row csv_column) = Inr (PStr [])) \<and>
         (outcome (calculate_data rt signal s) = CalculationComplete \<and>
          (target_field, csv_column) \<in> set (mappings s) \<and> csv_column \<noteq> [] \<and>
          distinct (map fst (mappings s)) \<longrightarrow>
            (\<exists>tbl. calculated_data (after (calculate_data rt signal s)) = Some tbl \<and>
               map_of tbl target_field = Some (replicate (length (csv_data s)) (PStr [])))) \<and>
         (\<forall>c i row. map_of (header_index (csv_headers s)) c = Some i \<and> length row \<le> i \<longrightarrow>
            i < length (csv_headers s) \<and> csv_headers s ! i = c \<and>
            raw_value (header_index (csv_headers s)) row c = [])"
proof -
  let ?hidx = "header_index (csv_headers s)"
  have cell: "raw_value ?hidx row csv_column = [] \<and>
      transform rt target_field csv_column (raw_value ?hidx row csv_column) = Inr (PStr [])"
    for row
    using raw_value_absent [OF assms(2)] transform_empty [OF assms(1)] by simp
  have col: "\<exists>tbl. calculated_data (after (calculate_data rt signal s)) = Some tbl \<and>
               map_of tbl target_field = Some (replicate (length (csv_data s)) (PStr []))"
    if fin: "outcome (calculate_data rt signal s) = CalculationComplete"
      and mem: "(target_field, csv_column) \<in> set (mappings s)"
      and ne: "csv_column \<noteq> []"
      and dist: "distinct (map fst (mappings s))"
  proof -
    from mem have m: "mappings s \<noteq> []" by auto
    from fin have d: "csv_data s \<noteq> []"
      by (auto simp: calculate_data_def split: if_splits)
    from calculate_data_run(1) [OF m d, of rt signal] fin
    obtain tbl where tbl: "rows_table rt ?hidx (active_of s) (csv_data s) (fresh_table s) = Inr tbl"
      by (auto split: sum.splits)
    with calculate_data_run(2) [OF m d, of rt signal]
    have stored: "calculated_data (after (calculate_data rt signal s)) = Some tbl"
      by simp
    from mem ne have act: "(target_field, csv_column) \<in> set (active_of s)"
      by (simp add: active_of_def)
    from rows_table_column [OF tbl distinct_active [OF dist] act fresh_table_column [OF act]]
    obtain vs where c: "map_of tbl target_field = Some vs"
      and vs: "map (\<lambda>row. transform rt target_field csv_column
                 (raw_value ?hidx row csv_column)) (csv_data s) = map Inr vs"
      by auto
    have r0: "raw_value ?hidx row csv_column = []" for row
      by (rule raw_value_absent [OF assms(2)])
    have t0: "transform rt target_field csv_column [] = Inr (PStr [])"
      by (rule transform_empty [OF assms(1)])
    from vs have "map (\<lambda>row. Inr (PStr []) :: py_exception + pyval) (csv_data s) = map Inr vs"
      by (simp add: r0 t0)
    then have "map Inr vs =
               (map Inr (replicate (length (csv_data s)) (PStr [])) :: (py_exception + pyval) list)"
      by (simp add: map_replicate_const)
    then have "vs = replicate (length (csv_data s)) (PStr [])"
      using inj_map_eq_map [OF inj_Inr] by blast
    with c stored show ?thesis by simp
  qed
  have short: "i < length (csv_headers s) \<and> csv_headers s ! i = c \<and> raw_value ?hidx row c = []"
    if "map_of ?hidx c = Some i" and "length row \<le> i" for c i row
    using that header_index_found [of "csv_headers s" c i] raw_value_short [of ?hidx c i row]
    by simp
  show ?thesis
    using cell col short by blast
qed

lemma example_header_index:
  "map_of (header_index (csv_headers example_state)) ''hiline_road'' = Some 1"
  by code_simp

theorem unresolved_column_gives_empty_cells_witness:
  "json_loads example_runtime [] = Inl JSONDecodeError \<and>
   ''hiline_section'' \<notin> set (csv_headers example_state) \<and>
   outcome (calculate_data example_runtime always_signalled example_state)
     = CalculationComplete \<and>
   (''VNK'', ''hiline_section'') \<in> set (mappings example_state) \<and>
   distinct (map fst (mappings example_state)) \<and>
   length (csv_data example_state) = 2 \<and>
   map_of (the (calculated_data
     (after (calculate_data example_runtime always_signalled example_state)))) ''VNK''
     = Some [PStr [], PStr []] \<and>
   map_of (header_index (csv_headers example_state)) ''hiline_road'' = Some 1 \<and>
   length [''2''] \<le> 1 \<and>
   raw_value (header_index (csv_headers example_state)) [''2''] ''hiline_road'' = []"
proof -
  note th = unresolved_column_gives_empty_cells [OF example_loads(5) example_state_facts(6),
      of "''VNK''" always_signalled]
  have ne: "''hiline_section'' \<noteq> []"
    by simp
  from th example_run(1) example_state_facts(5,7) ne
  have "\<exists>tbl. calculated_data (after (calculate_data example_runtime always_signalled
            example_state)) = Some tbl \<and>
          map_of tbl ''VNK'' = Some (replicate (length (csv_data example_state)) (PStr []))"
    by blast
  then have col: "map_of (the (calculated_data
      (after (calculate_data example_runtime always_signalled example_state)))) ''VNK''
      = Some [PStr [], PStr []]"
    by (auto simp: example_state_facts(10) numeral_2_eq_2)
  have le: "length [''2''] \<le> (1::nat)"
    by simp
  from th example_header_index le
  have short: "raw_value (header_index (csv_headers example_state)) [''2''] ''hiline_road'' = []"
    by blast
  show ?thesis
    using example_loads(5) example_state_facts(5,6,7,10) example_run(1) example_header_index
      col short
    by simp
qed

section \<open>Properties of the mapping table\<close>

lemma auto_map_loop_beyond:
  "length hs \<le> n \<Longrightarrow> auto_map_loop hs (enumerate n ts) m = m"
  by (induction ts arbitrary: n) auto

lemma auto_map_loop_map_of:
  "map_of (auto_map_loop hs (enumerate n ts) m) t =
     (case map_of (rev (zip ts (drop n hs))) t of Some h \<Rightarrow> Some h | None \<Rightarrow> map_of m t)"
proof (induction ts arbitrary: n m)
  case Nil
  then show ?case by simp
next
  case (Cons t0 ts)
  show ?case
  proof (cases "n < length hs")
    case True
    then have d: "drop n hs = hs ! n # drop (Suc n) hs"
      by (simp add: Cons_nth_drop_Suc)
    show ?thesis
      using True Cons.IH [of "Suc n" "AList.update t0 (hs ! n) m"]
      by (auto simp: d AList.update_conv' map_add_def split: option.splits)
  next
    case False
    then show ?thesis
      by (simp add: auto_map_loop_beyond)
  qed
qed

lemma auto_map_mappings:
  "csv_headers s \<noteq> [] \<Longrightarrow>
     map_of (mappings (auto_map s)) = map_of (rev (zip (TARGET_FIELDS s) (csv_headers s)))"
  by (rule ext) (simp add: auto_map_def clear_mappings_def Let_def auto_map_loop_map_of
      split: option.splits)

lemma auto_map_others:
  "csv_headers s \<noteq> [] \<Longrightarrow>
     auto_map s = s\<lparr>mappings := mappings (auto_map s), calculated_data := None\<rparr>"
  by (simp add: auto_map_def clear_mappings_def Let_def)

lemma map_of_rev_distinct:
  "distinct (map fst xs) \<Longrightarrow> map_of (rev xs) = map_of xs"
  by (rule map_of_inject_set [THEN iffD2]) (simp_all add: rev_map [symmetric])

lemma zip_positional:
  "distinct ts \<Longrightarrow> i < length ts \<Longrightarrow>
     map_of (zip ts hs) (ts ! i) = (if i < length hs then Some (hs ! i) else None)"
proof (induction ts arbitrary: hs i)
  case Nil
  then show ?case by simp
next
  case (Cons t ts)
  show ?case
  proof (cases hs)
    case Nil
    then show ?thesis by simp
  next
    case (Cons h hs')
    show ?thesis
    proof (cases i)
      case 0
      with Cons show ?thesis by simp
    next
      case (Suc j)
      with Cons.prems have "j < length ts" "ts ! j \<noteq> t" "distinct ts"
        by auto
      with Cons.IH [of j hs'] Cons Suc show ?thesis by simp
    qed
  qed
qed

lemma zip_keys: "fst ` set (zip ts hs) \<subseteq> set (take (length hs) ts)"
  by (metis map_fst_zip_take set_map set_take_subset_set_take min.cobounded2)

text \<open>
  C7, as far as it holds. With at least one header, \<open>auto_map\<close> leaves exactly the
  positional assignment: the mapping is the one read off the pairs of target field and
  header at equal index (a later pair replacing an earlier one with the same field
  name), every mapped name is among the first \<open>length headers\<close> target fields, so no
  entry of an earlier mapping survives, and the calculated table is gone. When the
  target field names are pairwise distinct, the field at every index below the shorter
  length is mapped to the header at that index and every field at a later index is
  unmapped. Without any header \<open>auto_map\<close> returns the state unchanged.
\<close>

theorem auto_map_by_position:
  "(csv_headers s \<noteq> [] \<longrightarrow>
      map_of (mappings (auto_map s)) = map_of (rev (zip (TARGET_FIELDS s) (csv_headers s))) \<and>
      fst ` set (mappings (auto_map s)) \<subseteq> set (take (length (csv_headers s)) (TARGET_FIELDS s)) \<and>
      calculated_data (auto_map s) = None \<and>
      (distinct (TARGET_FIELDS s) \<longrightarrow>
         (\<forall>i. i < min (length (TARGET_FIELDS s)) (length (csv_headers s)) \<longrightarrow>
            map_of (mappings (auto_map s)) (TARGET_FIELDS s ! i) = Some (csv_headers s ! i)) \<and>
         (\<forall>i. min (length (TARGET_FIELDS s)) (length (csv_headers s)) \<le> i \<and>
              i < length (TARGET_FIELDS s) \<longrightarrow>
            map_of (mappings (auto_map s)) (TARGET_FIELDS s ! i) = None))) \<and>
   (csv_headers s = [] \<longrightarrow> auto_map s = s)"
proof -
  let ?T = "TARGET_FIELDS s" and ?H = "csv_headers s"
  have empty: "?H = [] \<Longrightarrow> auto_map s = s"
    by (simp add: auto_map_def)
  have m: "map_of (mappings (auto_map s)) = map_of (rev (zip ?T ?H))" if "?H \<noteq> []"
    using that by (rule auto_map_mappings)
  have keys: "fst ` set (mappings (auto_map s)) \<subseteq> set (take (length ?H) ?T)" if ne: "?H \<noteq> []"
  proof
    fix t assume "t \<in> fst ` set (mappings (auto_map s))"
    then have "map_of (mappings (auto_map s)) t \<noteq> None"
      by (simp add: map_of_eq_None_iff)
    with m [OF ne] have "map_of (rev (zip ?T ?H)) t \<noteq> None" by simp
    then have "t \<in> fst ` set (rev (zip ?T ?H))"
      by (simp only: map_of_eq_None_iff) simp
    then show "t \<in> set (take (length ?H) ?T)"
      using zip_keys [of ?T ?H] by auto
  qed
  have none: "calculated_data (auto_map s) = None" if "?H \<noteq> []"
    using that by (simp add: auto_map_def clear_mappings_def Let_def)
  have pos: "map_of (mappings (auto_map s)) (?T ! i) =
      (if i < length ?H then Some (?H ! i) else None)"
    if "?H \<noteq> []" "distinct ?T" "i < length ?T" for i
  proof -
    have "distinct (map fst (zip ?T ?H))"
      using that(2) by (simp add: map_fst_zip_take distinct_take)
    then have "map_of (rev (zip ?T ?H)) = map_of (zip ?T ?H)"
      by (rule map_of_rev_distinct)
    with m [OF that(1)] zip_positional [OF that(2,3), of ?H] show ?thesis by simp
  qed
  show ?thesis
    using empty m keys none pos by (auto simp: min_def split: if_splits)
qed


lemma example_auto_map:
  "mappings (auto_map example_state) =
     [(''ID'', ''id''), (''KLASSE'', ''hiline_road''), (''GEB'', ''business_data'')]"
  by code_simp

theorem auto_map_by_position_witness:
  "csv_headers example_state \<noteq> [] \<and> distinct (TARGET_FIELDS example_state) \<and>
   (1::nat) < min (length (TARGET_FIELDS example_state)) (length (csv_headers example_state)) \<and>
   map_of (mappings (auto_map example_state)) (TARGET_FIELDS example_state ! 1)
     = Some (csv_headers example_state ! 1) \<and>
   min (length (TARGET_FIELDS example_state)) (length (csv_headers example_state)) \<le> 3 \<and>
   (3::nat) < length (TARGET_FIELDS example_state) \<and>
   map_of (mappings (auto_map example_state)) (TARGET_FIELDS example_state ! 3) = None \<and>
   map_of (mappings example_state) (TARGET_FIELDS example_state ! 3) = Some ''hiline_section'' \<and>
   csv_headers example_state_no_headers = [] \<and>
   auto_map example_state_no_headers = example_state_no_headers"
proof -
  have f: "csv_headers example_state \<noteq> []" "distinct (TARGET_FIELDS example_state)"
    "length (TARGET_FIELDS example_state) = 4" "length (csv_headers example_state) = 3"
    "map_of (mappings example_state) (TARGET_FIELDS example_state ! 3) = Some ''hiline_section''"
    "csv_headers example_state_no_headers = []"
    by (simp_all add: example_state_def example_state_no_headers_def)
  note th = auto_map_by_position [of example_state]
  have p1: "(1::nat) < min (length (TARGET_FIELDS example_state))
      (length (csv_headers example_state))"
    by (simp add: f)
  have p3: "min (length (TARGET_FIELDS example_state)) (length (csv_headers example_state)) \<le> 3"
    "(3::nat) < length (TARGET_FIELDS example_state)"
    by (simp_all add: f)
  from th f(1,2) p1
  have a: "map_of (mappings (auto_map example_state)) (TARGET_FIELDS example_state ! 1)
     = Some (csv_headers example_state ! 1)"
    by blast
  from th f(1,2) p3
  have b: "map_of (mappings (auto_map example_state)) (TARGET_FIELDS example_state ! 3) = None"
    by blast
  from auto_map_by_position [of example_state_no_headers] f(6)
  have c: "auto_map example_state_no_headers = example_state_no_headers"
    by blast
  show ?thesis
    using f(1,2,5,6) p1 p3 a b c by blast
qed

text \<open>
  C7 as stated fails: with an empty header list the shorter length is 0, yet the target
  field at index 0 keeps the entry of the earlier mapping.
\<close>

theorem auto_map_without_headers_counterexample:
  "csv_headers example_state_no_headers = [] \<and>
   min (length (TARGET_FIELDS example_state_no_headers))
       (length (csv_headers example_state_no_headers)) = 0 \<and>
   TARGET_FIELDS example_state_no_headers ! 0 = ''ID'' \<and>
   map_of (mappings example_state_no_headers) ''ID'' = Some ''id'' \<and>
   map_of (mappings (auto_map example_state_no_headers)) ''ID'' = Some ''id''"
  by (simp add: example_state_no_headers_def example_state_def auto_map_def)

section \<open>Invalidation\<close>

lemma read_file_table:
  "calculated_data (fst (read_file attempts s)) = calculated_data s"
  by (induction attempts s rule: read_file.induct) simp_all

text \<open>
  Every other path: the mapping operations, an accepted edit of the target fields and a
  completed load leave no calculated table; an operation that leaves one returns the
  state as it was, except for the failed load.
\<close>

lemma changes_invalidate:
  "calculated_data (on_mapping_selected t c s) = None"
  "calculated_data (clear_single_mapping t s) = None"
  "calculated_data (clear_mappings s) = None"
  "auto_map s = s \<or> calculated_data (auto_map s) = None"
  "fst (smart_auto_map s) = s \<or> calculated_data (fst (smart_auto_map s)) = None"
  "edit_target_fields r s = s \<or> calculated_data (edit_target_fields r s) = None"
  "fst (load_csv path attempts s) = Loaded \<Longrightarrow>
     calculated_data (snd (load_csv path attempts s)) = None"
  "fst (load_csv path attempts s) = NoFileChosen \<Longrightarrow> snd (load_csv path attempts s) = s"
  "fst (load_csv path attempts s) = LoadFailed \<Longrightarrow>
     calculated_data (snd (load_csv path attempts s)) = calculated_data s"
proof -
  show "calculated_data (on_mapping_selected t c s) = None"
    by (simp add: on_mapping_selected_def Let_def)
  show "calculated_data (clear_single_mapping t s) = None"
    by (simp add: clear_single_mapping_def Let_def)
  show "calculated_data (clear_mappings s) = None"
    by (simp add: clear_mappings_def)
  show "auto_map s = s \<or> calculated_data (auto_map s) = None"
    by (simp add: auto_map_def clear_mappings_def Let_def)
  show "fst (smart_auto_map s) = s \<or> calculated_data (fst (smart_auto_map s)) = None"
    by (simp add: smart_auto_map_def clear_mappings_def Let_def)
  show "edit_target_fields r s = s \<or> calculated_data (edit_target_fields r s) = None"
    by (simp add: edit_target_fields_def Let_def split: option.splits)
  show "fst (load_csv path attempts s) = Loaded \<Longrightarrow>
     calculated_data (snd (load_csv path attempts s)) = None"
    by (auto simp: load_csv_def split: option.splits prod.splits bool.splits if_splits)
  show "fst (load_csv path attempts s) = NoFileChosen \<Longrightarrow> snd (load_csv path attempts s) = s"
    by (auto simp: load_csv_def split: option.splits prod.splits bool.splits if_splits)
  show "fst (load_csv path attempts s) = LoadFailed \<Longrightarrow>
     calculated_data (snd (load_csv path attempts s)) = calculated_data s"
    using read_file_table [of "take 4 attempts" s]
    by (auto simp: load_csv_def split: option.splits prod.splits bool.splits if_splits)
qed

text \<open>
  C8 fails on a load that breaks off after the header row: the headers of the example
  state are replaced, the load is reported as failed, and the calculated table of the
  earlier run is still stored and still accepted by the export guard.
\<close>

theorem failed_load_keeps_table:
  "load_csv (Some ''next.csv'') example_failing_read example_state =
     (LoadFailed, example_state\<lparr>csv_headers := [''a'', ''b''], csv_delimiter := CHR '';''\<rparr>) \<and>
   csv_headers example_state = [''id'', ''hiline_road'', ''business_data''] \<and>
   csv_headers (snd (load_csv (Some ''next.csv'') example_failing_read example_state))
     = [''a'', ''b''] \<and>
   calculated_data (snd (load_csv (Some ''next.csv'') example_failing_read example_state))
     = Some [(''ID'', [PStr ''old''])] \<and>
   export_allowed (snd (load_csv (Some ''next.csv'') example_failing_read example_state))"
  by (simp add: load_csv_def example_failing_read_def example_state_def export_allowed_def)

section \<open>Properties of the road class extraction\<close>




















section \<open>The mapping stays a dictionary\<close>

text \<open>
  The association list that stands for \<open>self.mappings\<close> never holds a key twice: every
  operation keeps the keys distinct.
\<close>

lemma auto_map_loop_distinct:
  "distinct (map fst m) \<Longrightarrow> distinct (map fst (auto_map_loop hs its m))"
  by (induction hs its m rule: auto_map_loop.induct) (simp_all add: distinct_update)

lemma smart_fields_distinct:
  "distinct (map fst (fst acc)) \<Longrightarrow> distinct (map fst (fst (smart_fields w col ts acc)))"
  by (induction w col ts acc rule: smart_fields.induct) (simp_all add: distinct_update)

lemma smart_rules_distinct:
  "distinct (map fst (fst acc)) \<Longrightarrow> distinct (map fst (fst (smart_rules w hm rules acc)))"
  by (induction w hm rules acc rule: smart_rules.induct)
    (simp_all add: smart_fields_distinct split: option.splits)

lemma restore_mappings_distinct:
  "distinct (map fst m) \<Longrightarrow> distinct (map fst (restore_mappings w hs old m))"
  by (induction w hs old m rule: restore_mappings.induct) (simp_all add: distinct_update)

lemma read_file_mappings: "mappings (fst (read_file attempts s)) = mappings s"
  by (induction attempts s rule: read_file.induct) simp_all

lemma mapping_keys_distinct:
  assumes "distinct (map fst (mappings s))"
  shows "distinct (map fst (mappings (on_mapping_selected t c s)))"
    and "distinct (map fst (mappings (clear_single_mapping t s)))"
    and "distinct (map fst (mappings (clear_mappings s)))"
    and "distinct (map fst (mappings (auto_map s)))"
    and "distinct (map fst (mappings (fst (smart_auto_map s))))"
    and "distinct (map fst (mappings (edit_target_fields r s)))"
    and "distinct (map fst (mappings (snd (load_csv path attempts s))))"
    and "distinct (map fst (mappings (after (calculate_data rt signal s))))"
proof -
  show "distinct (map fst (mappings (on_mapping_selected t c s)))"
    using assms by (simp add: on_mapping_selected_def Let_def distinct_update distinct_delete)
  show "distinct (map fst (mappings (clear_single_mapping t s)))"
    using assms by (simp add: clear_single_mapping_def Let_def distinct_delete)
  show "distinct (map fst (mappings (clear_mappings s)))"
    by (simp add: clear_mappings_def)
  show "distinct (map fst (mappings (auto_map s)))"
    using assms by (simp add: auto_map_def clear_mappings_def Let_def auto_map_loop_distinct)
  show "distinct (map fst (mappings (fst (smart_auto_map s))))"
    using assms by (simp add: smart_auto_map_def clear_mappings_def Let_def smart_rules_distinct)
  show "distinct (map fst (mappings (edit_target_fields r s)))"
    using assms
    by (simp add: edit_target_fields_def rebuild_target_panel_def Let_def
        restore_mappings_distinct split: option.splits)
  show "distinct (map fst (mappings (snd (load_csv path attempts s))))"
    using assms read_file_mappings [of "take 4 attempts" s]
    by (auto simp: load_csv_def split: option.splits prod.splits bool.splits)
  show "distinct (map fst (mappings (after (calculate_data rt signal s))))"
  proof (cases "mappings s = [] \<or> csv_data s = []")
    case True
    with assms show ?thesis by (auto simp: calculate_data_def)
  next
    case False
    then have "mappings s \<noteq> []" "csv_data s \<noteq> []" by auto
    from calculate_data_run(2) [OF this, of rt signal] assms show ?thesis by simp
  qed
qed

end
